theory Spec2Isabelle
  imports Main "HOL-Library.AList" "HOL-Library.Multiset"
begin

section \<open>Python values\<close>

text \<open>
  The values that flow through \<^verbatim>\<open>embypy/emby.py\<close> and
  \<^verbatim>\<open>embypy/objects/videos.py\<close>: decoded JSON (\<open>None\<close>, booleans,
  integers, strings, lists, dictionaries) and entity objects. A dictionary is an
  association list in insertion order, read with \<open>map_of\<close> and written with
  \<open>AList.update\<close> (an existing key keeps its place, a new key goes last, as in
  Python). An entity object carries the value of its \<^verbatim>\<open>type\<close> attribute and
  its \<^verbatim>\<open>object_dict\<close>.
\<close>

datatype pyval =
    PNone
  | PBool bool
  | PInt int
  | PStr string
  | PList "pyval list"
  | PDict "(string \<times> pyval) list"
  | PEntity string "(string \<times> pyval) list"

datatype exn =
    JSONDecodeError
  | LookupError string pyval
  | KeyError string
  | TypeError
  | AttributeError
  | TransportError string

type_synonym 'a result = "exn + 'a"

text \<open>Python truth value testing, as used by \<^verbatim>\<open>if obj_id:\<close> and \<^verbatim>\<open>a or b\<close>.\<close>

fun truthy :: "pyval \<Rightarrow> bool" where
  "truthy PNone = False"
| "truthy (PBool b) = b"
| "truthy (PInt i) = (i \<noteq> 0)"
| "truthy (PStr s) = (s \<noteq> [])"
| "truthy (PList xs) = (xs \<noteq> [])"
| "truthy (PDict d) = (d \<noteq> [])"
| "truthy (PEntity t d) = True"

text \<open>\<^verbatim>\<open>d.get(k, default)\<close>\<close>

definition dict_get :: "(string \<times> 'v) list \<Rightarrow> string \<Rightarrow> 'v \<Rightarrow> 'v" where
  "dict_get d k dflt = (case map_of d k of None \<Rightarrow> dflt | Some v \<Rightarrow> v)"

section \<open>Episode (objects/videos.py)\<close>

text \<open>
  An \<^verbatim>\<open>Episode\<close> adds no field to \<^verbatim>\<open>EmbyObject\<close>; its accessors read
  \<^verbatim>\<open>self.object_dict\<close>.
\<close>

record episode =
  object_dict :: "(string \<times> pyval) list"

definition index_number :: "episode \<Rightarrow> pyval" where
  "index_number self = dict_get (object_dict self) ''IndexNumber'' (PInt 1)"

definition episode_number :: "episode \<Rightarrow> pyval" where
  "episode_number self = index_number self"

definition set_index_number :: "episode \<Rightarrow> pyval \<Rightarrow> episode" where
  "set_index_number self v =
     self\<lparr>object_dict := AList.update ''IndexNumber'' v (object_dict self)\<rparr>"

definition set_episode_number :: "episode \<Rightarrow> pyval \<Rightarrow> episode" where
  "set_episode_number self v = set_index_number self v"

section \<open>The transport boundary and the resolver\<close>

text \<open>
  \<^verbatim>\<open>self.connector.getJson(path, **kwargs)\<close> is a call to the outside world.
  A request is its path and keyword arguments; the server is a function that
  answers a request, given the requests sent before it, with decoded JSON or
  with an exception. The \<^verbatim>\<open>Emby\<close> object is its cache \<^verbatim>\<open>extras\<close>
  together with the log of the requests sent so far.
\<close>

record request =
  path :: string
  kwargs :: "(string \<times> pyval) list"

type_synonym server = "request list \<Rightarrow> request \<Rightarrow> pyval result"

record emby =
  extras :: "(string \<times> pyval) list"
  sent :: "request list"

type_synonym 'a coro = "emby \<Rightarrow> 'a result \<times> emby"

definition getJson :: "server \<Rightarrow> request \<Rightarrow> pyval coro" where
  "getJson srv q self = (srv (sent self) q, self\<lparr>sent := sent self @ [q]\<rparr>)"

text \<open>
  \<^verbatim>\<open>self.process\<close> is inherited from \<^verbatim>\<open>EmbyObject\<close>
  (\<^verbatim>\<open>embypy/objects/object.py\<close>), which is not among the sources: the
  operations of \<^verbatim>\<open>emby.py\<close> take it as a parameter. A resolver maps the
  requests sent so far and its argument to a result or an exception, and to the
  requests it sends itself; it has no access to the cache.
\<close>

type_synonym resolver = "request list \<Rightarrow> pyval \<Rightarrow> pyval result \<times> request list"

definition process :: "resolver \<Rightarrow> pyval \<Rightarrow> pyval coro" where
  "process res v self =
     (case res (sent self) v of (r, qs) \<Rightarrow> (r, self\<lparr>sent := sent self @ qs\<rparr>))"

section \<open>Collection accessors (emby.py)\<close>

datatype collection =
  Albums | Songs | Playlists | Artists | Movies | Series | Episodes | Devices | Users

definition collections :: "collection list" where
  "collections = [Albums, Songs, Playlists, Artists, Movies, Series, Episodes, Devices, Users]"

definition item_collections :: "collection list" where
  "item_collections = [Albums, Songs, Playlists, Artists, Movies, Series, Episodes]"

fun ckey :: "collection \<Rightarrow> string" where
  "ckey Albums = ''albums''"
| "ckey Songs = ''songs''"
| "ckey Playlists = ''playlists''"
| "ckey Artists = ''artists''"
| "ckey Movies = ''movies''"
| "ckey Series = ''series''"
| "ckey Episodes = ''episodes''"
| "ckey Devices = ''devices''"
| "ckey Users = ''users''"

text \<open>The request of each \<^verbatim>\<open>*_force\<close> accessor, as written in its body.\<close>

fun force_query :: "collection \<Rightarrow> request" where
  "force_query Albums = \<lparr>path = ''/Users/{UserId}/Items'', kwargs =
     [(''remote'', PBool False), (''format'', PStr ''json''), (''Recursive'', PStr ''true''),
      (''IncludeItemTypes'', PStr ''MusicAlbum''),
      (''Fields'', PStr ''Path,ParentId,Overview,Genres,Tags,Artists''),
      (''SortBy'', PStr ''SortName''), (''SortOrder'', PStr ''Ascending'')]\<rparr>"
| "force_query Songs = \<lparr>path = ''/Users/{UserId}/Items'', kwargs =
     [(''remote'', PBool False), (''format'', PStr ''json''), (''Recursive'', PStr ''true''),
      (''IncludeItemTypes'', PStr ''Audio''),
      (''Fields'', PStr ''Path,ParentId,Overview,Genres,Tags,Artists''),
      (''SortBy'', PStr ''SortName''), (''SortOrder'', PStr ''Ascending'')]\<rparr>"
| "force_query Playlists = \<lparr>path = ''/Users/{UserId}/Items'', kwargs =
     [(''remote'', PBool False), (''format'', PStr ''json''), (''Recursive'', PStr ''true''),
      (''IncludeItemTypes'', PStr ''Playlist''),
      (''Fields'', PStr ''Path,ParentId,Overview''),
      (''SortBy'', PStr ''SortName''), (''SortOrder'', PStr ''Ascending'')]\<rparr>"
| "force_query Artists = \<lparr>path = ''/Users/{UserId}/Items'', kwargs =
     [(''remote'', PBool False), (''format'', PStr ''json''), (''Recursive'', PStr ''true''),
      (''IncludeItemTypes'', PStr ''MusicArtist''),
      (''Fields'', PStr ''Path,ParentId,Overview,Genres,Tags''),
      (''SortBy'', PStr ''SortName''), (''SortOrder'', PStr ''Ascending'')]\<rparr>"
| "force_query Movies = \<lparr>path = ''/Users/{UserId}/Items'', kwargs =
     [(''remote'', PBool False), (''format'', PStr ''json''), (''Recursive'', PStr ''true''),
      (''IncludeItemTypes'', PStr ''Movie''),
      (''Fields'', PStr ''Path,ParentId,Overview,Genres,Tags,ProviderIds''),
      (''SortBy'', PStr ''SortName''), (''SortOrder'', PStr ''Ascending'')]\<rparr>"
| "force_query Series = \<lparr>path = ''/Users/{UserId}/Items'', kwargs =
     [(''remote'', PBool False), (''format'', PStr ''json''), (''Recursive'', PStr ''true''),
      (''IncludeItemTypes'', PStr ''Series''),
      (''Fields'', PStr ''Path,ParentId,Overview,Genres,Tags''),
      (''SortBy'', PStr ''SortName''), (''SortOrder'', PStr ''Ascending'')]\<rparr>"
| "force_query Episodes = \<lparr>path = ''/Users/{UserId}/Items'', kwargs =
     [(''remote'', PBool False), (''format'', PStr ''json''), (''Recursive'', PStr ''true''),
      (''IncludeItemTypes'', PStr ''Episode''),
      (''Fields'', PStr ''Path,ParentId,Overview,Genres,Tags''),
      (''SortBy'', PStr ''SortName''), (''SortOrder'', PStr ''Ascending'')]\<rparr>"
| "force_query Devices = \<lparr>path = ''/Devices'', kwargs = [(''remote'', PBool False)]\<rparr>"
| "force_query Users = \<lparr>path = ''/Users'', kwargs = [(''remote'', PBool False)]\<rparr>"

text \<open>
  \<^verbatim>\<open>albums_force\<close> and its eight siblings: query, resolve, store, return. An
  exception of the query or of the resolver leaves before the store.
\<close>

definition force :: "server \<Rightarrow> resolver \<Rightarrow> collection \<Rightarrow> pyval coro" where
  "force srv res c self =
     (case getJson srv (force_query c) self of
        (Inl e, s1) \<Rightarrow> (Inl e, s1)
      | (Inr items, s1) \<Rightarrow>
          (case process res items s1 of
             (Inl e, s2) \<Rightarrow> (Inl e, s2)
           | (Inr items', s2) \<Rightarrow>
               (Inr items', s2\<lparr>extras := AList.update (ckey c) items' (extras s2)\<rparr>)))"

text \<open>
  The default of \<^verbatim>\<open>self.extras.get\<close> in the cached accessor:
  \<^verbatim>\<open>None\<close> for albums, songs and playlists, \<^verbatim>\<open>[]\<close> for the others.
\<close>

fun cache_default :: "collection \<Rightarrow> pyval" where
  "cache_default Albums = PNone"
| "cache_default Songs = PNone"
| "cache_default Playlists = PNone"
| "cache_default c = PList []"

text \<open>\<^verbatim>\<open>return self.extras.get('albums') or await self.albums_force\<close>\<close>

definition cached :: "server \<Rightarrow> resolver \<Rightarrow> collection \<Rightarrow> pyval coro" where
  "cached srv res c self =
     (let v = dict_get (extras self) (ckey c) (cache_default c)
      in if truthy v then (Inr v, self) else force srv res c self)"

section \<open>The dual-mode call convention and update\<close>

text \<open>
  Modelled from the spec: the decorator \<^verbatim>\<open>async_func\<close>
  (\<^verbatim>\<open>embypy/utils/asyncio.py\<close>) is not among the sources. Section 4.5 of the
  specification: invoked where no scheduler is running, the wrapper runs the
  operation to completion and returns its value; invoked inside a running
  scheduler, it returns a handle that the caller must await, and nothing of the
  body has run.
\<close>

datatype called = Returned "pyval result" | Handle "pyval coro"

definition async_func :: "bool \<Rightarrow> pyval coro \<Rightarrow> emby \<Rightarrow> called \<times> emby" where
  "async_func running body self =
     (if running then (Handle body, self)
      else (case body self of (r, s) \<Rightarrow> (Returned r, s)))"

text \<open>
  The names that class \<^verbatim>\<open>Emby\<close> defines: eighteen properties (each cached
  accessor and its \<^verbatim>\<open>_force\<close> sibling, all wrapped by \<^verbatim>\<open>async_func\<close>)
  and six methods.
\<close>

definition emby_properties :: "server \<Rightarrow> resolver \<Rightarrow> (string \<times> pyval coro) list" where
  "emby_properties srv res =
     concat (map (\<lambda>c. [(ckey c, cached srv res c), (ckey c @ ''_force'', force srv res c)])
                 collections)"

definition emby_methods :: "string list" where
  "emby_methods = [''info'', ''search'', ''latest'', ''nextUp'', ''update'', ''create_playlist'']"

text \<open>
  One round of the loop of \<^verbatim>\<open>update\<close>:
  \<^verbatim>\<open>
    try:
        func = getattr(self, key, None)
        if callable(func):
            func()
    except:
        pass
  \<close>
  The body of \<^verbatim>\<open>update\<close> is itself a coroutine, so it runs inside a running
  scheduler. For a property, \<^verbatim>\<open>getattr\<close> evaluates the property: the wrapper
  is called and gives back a handle, which is not callable, so \<^verbatim>\<open>func()\<close> is
  skipped and the handle is dropped without being awaited. A value returned by
  the wrapper (a list, an entity, \<^verbatim>\<open>None\<close>) would not be callable either, and
  an exception is swallowed. For a method, \<^verbatim>\<open>func()\<close> calls the wrapper with
  no argument: it raises \<^verbatim>\<open>TypeError\<close> for a missing argument, or gives back a
  handle that is dropped; neither runs a body. Any other name is looked up in
  \<^verbatim>\<open>EmbyObject\<close>, which is not among the sources: its effect is the
  parameter \<open>inherited\<close>.
\<close>

definition refresh_key ::
  "server \<Rightarrow> resolver \<Rightarrow> (string \<Rightarrow> emby \<Rightarrow> emby) \<Rightarrow> string \<Rightarrow> emby \<Rightarrow> emby" where
  "refresh_key srv res inherited key self =
     (case map_of (emby_properties srv res) key of
        Some body \<Rightarrow>
          (case async_func True body self of
             (Handle h, s) \<Rightarrow> s
           | (Returned r, s) \<Rightarrow> s)
      | None \<Rightarrow> if key \<in> set emby_methods then self else inherited key self)"

text \<open>
  \<^verbatim>\<open>
    keys = self.extras.keys()
    self.extras = {}
    for key in keys: ...
  \<close>
  \<^verbatim>\<open>keys\<close> is a view of the old dictionary, which the assignment does not
  change.
\<close>

definition update ::
  "server \<Rightarrow> resolver \<Rightarrow> (string \<Rightarrow> emby \<Rightarrow> emby) \<Rightarrow> pyval coro" where
  "update srv res inherited self =
     (let keys = map fst (extras self);
          s0 = self\<lparr>extras := []\<rparr>
      in (Inr PNone, fold (refresh_key srv res inherited) keys s0))"

section \<open>info and search (emby.py)\<close>

text \<open>
  \<^verbatim>\<open>self.connector.info()\<close> belongs to the connector, which is not among the
  sources: it is the parameter \<open>connector_info\<close>.
\<close>

definition info :: "resolver \<Rightarrow> pyval coro \<Rightarrow> pyval \<Rightarrow> pyval coro" where
  "info res connector_info obj_id self =
     (if truthy obj_id then
        (case process res obj_id self of
           (Inl JSONDecodeError, s) \<Rightarrow>
             (Inl (LookupError ''Error object with that id does not exist'' obj_id), s)
         | (r, s) \<Rightarrow> (r, s))
      else connector_info self)"

text \<open>\<^verbatim>\<open>sep.join(xs)\<close>\<close>

fun join :: "string \<Rightarrow> string list \<Rightarrow> string" where
  "join sep [] = []"
| "join sep [x] = x"
| "join sep (x # y # ys) = x @ sep @ join sep (y # ys)"

definition search_params :: "string \<Rightarrow> (string \<times> int) list \<Rightarrow> bool \<Rightarrow> (string \<times> pyval) list" where
  "search_params query sort_map strict_sort =
     (let params = [(''remote'', PBool False), (''searchTerm'', PStr query)]
      in if strict_sort
         then AList.update ''IncludeItemTypes'' (PStr (join '','' (map fst sort_map))) params
         else params)"

text \<open>The request \<^verbatim>\<open>getJson('/Search/Hints/', **search_params)\<close>.\<close>

definition search_request :: "string \<Rightarrow> (string \<times> int) list \<Rightarrow> bool \<Rightarrow> request" where
  "search_request query sort_map strict_sort =
     \<lparr>path = ''/Search/Hints/'', kwargs = search_params query sort_map strict_sort\<rparr>"

text \<open>\<^verbatim>\<open>json["SearchHints"]\<close>: only a dictionary can be subscripted by a string.\<close>

fun subscript :: "pyval \<Rightarrow> string \<Rightarrow> pyval result" where
  "subscript (PDict d) k = (case map_of d k of None \<Rightarrow> Inl (KeyError k) | Some v \<Rightarrow> Inr v)"
| "subscript v k = Inl TypeError"

text \<open>What \<^verbatim>\<open>sorted\<close> iterates over.\<close>

fun py_iter :: "pyval \<Rightarrow> pyval list result" where
  "py_iter (PList xs) = Inr xs"
| "py_iter (PStr s) = Inr (map (\<lambda>c. PStr [c]) s)"
| "py_iter (PDict d) = Inr (map (\<lambda>kv. PStr (fst kv)) d)"
| "py_iter v = Inl TypeError"

text \<open>\<^verbatim>\<open>x.type\<close>: only an entity has the attribute.\<close>

fun obj_type :: "pyval \<Rightarrow> string result" where
  "obj_type (PEntity t d) = Inr t"
| "obj_type v = Inl AttributeError"

text \<open>The sort key \<^verbatim>\<open>lambda x: sort_map.get(x.type, m_size)\<close>.\<close>

definition sort_priority :: "(string \<times> int) list \<Rightarrow> pyval \<Rightarrow> int result" where
  "sort_priority sort_map x =
     (case obj_type x of
        Inl e \<Rightarrow> Inl e
      | Inr t \<Rightarrow> Inr (dict_get sort_map t (int (length sort_map))))"

text \<open>
  \<^verbatim>\<open>sorted(items, key=f)\<close>: the keys are computed first, in order, and the
  first exception leaves; then the items are sorted by their keys, stably.
\<close>

fun keys_of :: "('a \<Rightarrow> 'k result) \<Rightarrow> 'a list \<Rightarrow> 'k list result" where
  "keys_of f [] = Inr []"
| "keys_of f (x # xs) =
     (case f x of
        Inl e \<Rightarrow> Inl e
      | Inr k \<Rightarrow> (case keys_of f xs of Inl e \<Rightarrow> Inl e | Inr ks \<Rightarrow> Inr (k # ks)))"

definition py_sorted :: "('a \<Rightarrow> int result) \<Rightarrow> 'a list \<Rightarrow> 'a list result" where
  "py_sorted f xs =
     (case keys_of f xs of
        Inl e \<Rightarrow> Inl e
      | Inr ks \<Rightarrow> Inr (map snd (sort_key fst (zip ks xs))))"

definition sort_items :: "(string \<times> int) list \<Rightarrow> pyval \<Rightarrow> pyval result" where
  "sort_items sort_map items =
     (case py_iter items of
        Inl e \<Rightarrow> Inl e
      | Inr xs \<Rightarrow>
          (case py_sorted (sort_priority sort_map) xs of
             Inl e \<Rightarrow> Inl e
           | Inr ys \<Rightarrow> Inr (PList ys)))"

definition search ::
  "server \<Rightarrow> resolver \<Rightarrow> string \<Rightarrow> (string \<times> int) list \<Rightarrow> bool \<Rightarrow> pyval coro" where
  "search srv res query sort_map strict_sort self =
     (case getJson srv (search_request query sort_map strict_sort) self of
        (Inl e, s1) \<Rightarrow> (Inl e, s1)
      | (Inr json, s1) \<Rightarrow>
          (case subscript json ''SearchHints'' of
             Inl e \<Rightarrow> (Inl e, s1)
           | Inr hints \<Rightarrow>
               (case process res hints s1 of
                  (Inl e, s2) \<Rightarrow> (Inl e, s2)
                | (Inr items, s2) \<Rightarrow> (sort_items sort_map items, s2))))"

text \<open>The default \<^verbatim>\<open>sort_map\<close> of \<^verbatim>\<open>search\<close>.\<close>

definition default_sort_map :: "(string \<times> int) list" where
  "default_sort_map =
     [(''BoxSet'', 0), (''Series'', 1), (''Movie'', 2), (''Audio'', 3), (''Person'', 4)]"

section \<open>A resolver over the transport\<close>





section \<open>The resolver of the specification\<close>

text \<open>
  Modelled from the spec: \<^verbatim>\<open>EmbyObject.process\<close>
  (\<^verbatim>\<open>embypy/objects/object.py\<close>) is not among the sources. Section 4.2 of
  the specification: an entity is returned unchanged; a record is classified
  by the type registry and constructed, with no network call; a bare identifier
  is fetched with \<open>fetchRaw\<close> and constructed, and a decode failure becomes the
  lookup error that carries the identifier; a sequence of these is resolved
  element by element, in any order of completion, into a sequence in the order
  of the input (section 5: collected by index, not appended on completion).
  \<open>fetchRaw\<close> and the type registry are parameters. Each resolution also
  gives the identifiers it fetched.
\<close>

datatype ('e, 'r) atom = Resolved 'e | Record 'r | Ident string

datatype ('e, 'r) resolver_input = Single "('e, 'r) atom" | Sequence "('e, 'r) atom list"

datatype 'e resolved = One 'e | Many "'e list"

fun resolve :: "(string \<Rightarrow> 'r result) \<Rightarrow> ('r \<Rightarrow> 'e) \<Rightarrow> ('e, 'r) atom \<Rightarrow> 'e result \<times> string list" where
  "resolve fetchRaw classify (Resolved e) = (Inr e, [])"
| "resolve fetchRaw classify (Record r) = (Inr (classify r), [])"
| "resolve fetchRaw classify (Ident i) =
     (case fetchRaw i of
        Inl JSONDecodeError \<Rightarrow> (Inl (LookupError [] (PStr i)), [i])
      | Inl e \<Rightarrow> (Inl e, [i])
      | Inr r \<Rightarrow> (Inr (classify r), [i]))"

text \<open>
  The elements complete in the order \<open>order\<close> (a list of indices); each result
  is stored in the slot of its index. The first failure leaves.
\<close>

fun complete ::
  "(nat \<Rightarrow> 'a result \<times> string list) \<Rightarrow> nat list \<Rightarrow> 'a option list \<Rightarrow> string list
     \<Rightarrow> 'a option list result \<times> string list" where
  "complete f [] slots ids = (Inr slots, ids)"
| "complete f (i # order) slots ids =
     (if i < length slots then
        (case f i of
           (Inl e, js) \<Rightarrow> (Inl e, ids @ js)
         | (Inr v, js) \<Rightarrow> complete f order (slots[i := Some v]) (ids @ js))
      else complete f order slots ids)"

text \<open>
  The result is \<open>None\<close> when a slot is still empty at the end: an element never
  completed and the resolver does not return.
\<close>

definition process_spec ::
  "(string \<Rightarrow> 'r result) \<Rightarrow> ('r \<Rightarrow> 'e) \<Rightarrow> nat list \<Rightarrow> ('e, 'r) resolver_input
     \<Rightarrow> ('e resolved result \<times> string list) option" where
  "process_spec fetchRaw classify order inp =
     (case inp of
        Single a \<Rightarrow>
          (case resolve fetchRaw classify a of
             (Inl e, ids) \<Rightarrow> Some (Inl e, ids)
           | (Inr v, ids) \<Rightarrow> Some (Inr (One v), ids))
      | Sequence xs \<Rightarrow>
          (case complete (\<lambda>i. resolve fetchRaw classify (xs ! i)) order
                  (replicate (length xs) None) [] of
             (Inl e, ids) \<Rightarrow> Some (Inl e, ids)
           | (Inr slots, ids) \<Rightarrow>
               (case those slots of
                  None \<Rightarrow> None
                | Some es \<Rightarrow> Some (Inr (Many es), ids))))"

definition succeeds :: "(string \<Rightarrow> 'r result) \<Rightarrow> ('r \<Rightarrow> 'e) \<Rightarrow> ('e, 'r) atom \<Rightarrow> bool" where
  "succeeds fetchRaw classify a =
     (case fst (resolve fetchRaw classify a) of Inl e \<Rightarrow> False | Inr v \<Rightarrow> True)"

section \<open>Vocabulary of the sorting property\<close>

text \<open>
  An entity is mapped when its type tag is a key of \<open>sort_map\<close>; its rank is the
  value of the sort key on it.
\<close>

fun is_entity :: "pyval \<Rightarrow> bool" where
  "is_entity (PEntity t d) = True"
| "is_entity v = False"

definition is_mapped :: "(string \<times> int) list \<Rightarrow> pyval \<Rightarrow> bool" where
  "is_mapped sort_map x =
     (case obj_type x of Inl e \<Rightarrow> False | Inr t \<Rightarrow> t \<in> set (map fst sort_map))"

definition rank :: "(string \<times> int) list \<Rightarrow> pyval \<Rightarrow> int" where
  "rank sort_map x = (case sort_priority sort_map x of Inl e \<Rightarrow> 0 | Inr k \<Rightarrow> k)"

section \<open>An example server and resolver\<close>

text \<open>
  A resolver that turns each record into an entity tagged with its \<open>Type\<close> field and
  sends nothing, and a server with four search hits, one movie and no device.
\<close>

fun as_entity :: "pyval \<Rightarrow> pyval" where
  "as_entity (PDict d) =
     PEntity (case map_of d ''Type'' of Some (PStr t) \<Rightarrow> t | _ \<Rightarrow> ''Object'') d"
| "as_entity v = v"

fun demo_resolve :: "pyval \<Rightarrow> pyval" where
  "demo_resolve (PList xs) = PList (map as_entity xs)"
| "demo_resolve v = as_entity v"

definition demo_resolver :: resolver where
  "demo_resolver h v = (Inr (demo_resolve v), [])"

definition demo_hints :: "pyval list" where
  "demo_hints =
     [PDict [(''Id'', PStr ''A''), (''Type'', PStr ''Series'')],
      PDict [(''Id'', PStr ''B''), (''Type'', PStr ''Movie'')],
      PDict [(''Id'', PStr ''C''), (''Type'', PStr ''Movie'')],
      PDict [(''Id'', PStr ''D''), (''Type'', PStr ''Person'')]]"

definition demo_server :: server where
  "demo_server h q =
     (if path q = ''/Search/Hints/'' then Inr (PDict [(''SearchHints'', PList demo_hints)])
      else if path q = ''/Users/{UserId}/Items''
        then Inr (PList [PDict [(''Id'', PStr ''m1''), (''Type'', PStr ''Movie'')]])
      else if path q = ''/Devices'' then Inr (PList [])
      else Inl JSONDecodeError)"

definition fresh :: emby where
  "fresh = \<lparr>extras = [], sent = []\<rparr>"

text \<open>The four hits as entities, and a server status.\<close>

definition demo_entities :: "pyval list" where
  "demo_entities =
     [PEntity ''Series'' [(''Id'', PStr ''A''), (''Type'', PStr ''Series'')],
      PEntity ''Movie'' [(''Id'', PStr ''B''), (''Type'', PStr ''Movie'')],
      PEntity ''Movie'' [(''Id'', PStr ''C''), (''Type'', PStr ''Movie'')],
      PEntity ''Person'' [(''Id'', PStr ''D''), (''Type'', PStr ''Person'')]]"


text \<open>A transport on which only the identifier \<open>B\<close> exists, and a type registry.\<close>

definition demo_fetch :: "string \<Rightarrow> (string \<times> pyval) list result" where
  "demo_fetch i =
     (if i = ''B'' then Inr [(''Id'', PStr ''B''), (''Type'', PStr ''Movie'')]
      else Inl JSONDecodeError)"

definition demo_classify :: "(string \<times> pyval) list \<Rightarrow> pyval" where
  "demo_classify r = as_entity (PDict r)"



section \<open>Properties of Episode\<close>

text \<open>
  C10. For an Episode whose raw record has no field \<open>IndexNumber\<close>, the accessor
  \<open>index_number\<close> returns the default 1, and \<open>episode_number\<close>, its alias,
  returns the same value.
\<close>

theorem index_number_default:
  assumes "''IndexNumber'' \<notin> fst ` set (object_dict e)"
  shows "index_number e = PInt 1 \<and> episode_number e = PInt 1"
proof -
  from assms have "map_of (object_dict e) ''IndexNumber'' = None"
    by (simp add: map_of_eq_None_iff)
  then show ?thesis
    by (simp add: index_number_def episode_number_def dict_get_def)
qed

theorem index_number_default_witness:
  "''IndexNumber'' \<notin> fst ` set (object_dict \<lparr>object_dict = [(''Id'', PStr ''e1''), (''Type'', PStr ''Episode'')]\<rparr>)
   \<and> index_number \<lparr>object_dict = [(''Id'', PStr ''e1''), (''Type'', PStr ''Episode'')]\<rparr> = PInt 1
   \<and> episode_number \<lparr>object_dict = [(''Id'', PStr ''e1''), (''Type'', PStr ''Episode'')]\<rparr> = PInt 1"
  using index_number_default [of "\<lparr>object_dict = [(''Id'', PStr ''e1''), (''Type'', PStr ''Episode'')]\<rparr>"]
  by simp

section \<open>Properties of the cache\<close>

lemma force_sent: "\<exists>qs. sent (snd (force srv res c self)) = sent self @ force_query c # qs"
  by (auto simp: force_def getJson_def process_def split: prod.splits sum.splits)

lemma force_success:
  assumes "srv (sent self) (force_query c) = Inr j"
    and "res (sent self @ [force_query c]) j = (Inr items, qs)"
  shows "force srv res c self =
           (Inr items, \<lparr>extras = AList.update (ckey c) items (extras self),
                        sent = sent self @ force_query c # qs\<rparr>)"
  using assms by (simp add: force_def getJson_def process_def)

lemma force_stores:
  assumes "force srv res c self = (Inr items, s)"
  shows "map_of (extras s) (ckey c) = Some items"
  using assms
  by (auto simp: force_def getJson_def process_def update_conv' split: prod.splits sum.splits)

lemma force_stores_others:
  assumes "force srv res c self = (Inr items, s)" "k \<noteq> ckey c"
  shows "map_of (extras s) k = map_of (extras self) k"
  using assms
  by (auto simp: force_def getJson_def process_def update_conv' split: prod.splits sum.splits)

lemma force_failure_keeps_cache:
  assumes "force srv res c self = (Inl e, s)"
  shows "extras s = extras self"
  using assms
  by (auto simp: force_def getJson_def process_def split: prod.splits sum.splits)

lemma cached_hit:
  assumes "map_of (extras self) (ckey c) = Some v" "truthy v"
  shows "cached srv res c self = (Inr v, self)"
  using assms by (simp add: cached_def dict_get_def)

lemma cached_miss:
  assumes "map_of (extras self) (ckey c) = None \<or> (\<exists>v. map_of (extras self) (ckey c) = Some v \<and> \<not> truthy v)"
  shows "cached srv res c self = force srv res c self"
  using assms by (cases c) (auto simp add: cached_def dict_get_def)

lemma emby_property_keys: "c \<in> set collections \<Longrightarrow> map_of (emby_properties srv res) (ckey c) \<noteq> None"
  by (cases c) (simp_all add: emby_properties_def collections_def)

lemma fold_refresh:
  assumes "\<forall>k\<in>set ks. map_of (emby_properties srv res) k \<noteq> None \<or> k \<in> set emby_methods"
  shows "fold (refresh_key srv res inh) ks self = self"
  using assms
proof (induction ks arbitrary: self)
  case Nil
  then show ?case by simp
next
  case (Cons k ks)
  have "refresh_key srv res inh k self = self"
    using Cons.prems by (auto simp: refresh_key_def async_func_def split: option.splits)
  with Cons show ?case by simp
qed

lemma update_clears:
  assumes "\<forall>k\<in>fst ` set (extras self). k \<in> ckey ` set collections"
  shows "update srv res inh self = (Inr PNone, self\<lparr>extras := []\<rparr>)"
proof -
  have "\<forall>k\<in>set (map fst (extras self)). map_of (emby_properties srv res) k \<noteq> None \<or> k \<in> set emby_methods"
    using assms emby_property_keys by fastforce
  then show ?thesis
    by (simp add: update_def Let_def fold_refresh)
qed

text \<open>
  C4. The cached accessor of a collection returns the cached value when the
  entry is present and non-empty (truthy). When the entry is absent or is the
  empty list, it performs the forced accessor; a forced accessor that returns
  has stored the value it returns under the key, and when the query and the
  resolver succeed it returns the resolved value with the entry overwritten.
\<close>

theorem cached_accessor:
  "(\<forall>v. map_of (extras self) (ckey c) = Some v \<and> truthy v \<longrightarrow>
        cached srv res c self = (Inr v, self))
   \<and> (map_of (extras self) (ckey c) = None \<or> map_of (extras self) (ckey c) = Some (PList [])
        \<longrightarrow> cached srv res c self = force srv res c self)
   \<and> (\<forall>items s. force srv res c self = (Inr items, s) \<longrightarrow>
        map_of (extras s) (ckey c) = Some items)
   \<and> (\<forall>j items qs. srv (sent self) (force_query c) = Inr j \<and>
        res (sent self @ [force_query c]) j = (Inr items, qs) \<longrightarrow>
        force srv res c self =
          (Inr items, \<lparr>extras = AList.update (ckey c) items (extras self),
                       sent = sent self @ force_query c # qs\<rparr>))"
proof (intro conjI allI impI)
  fix v assume "map_of (extras self) (ckey c) = Some v \<and> truthy v"
  then show "cached srv res c self = (Inr v, self)"
    by (simp add: cached_hit)
next
  assume "map_of (extras self) (ckey c) = None \<or> map_of (extras self) (ckey c) = Some (PList [])"
  then show "cached srv res c self = force srv res c self"
    by (intro cached_miss) auto
next
  fix items s assume "force srv res c self = (Inr items, s)"
  then show "map_of (extras s) (ckey c) = Some items"
    by (rule force_stores)
next
  fix j items qs
  assume "srv (sent self) (force_query c) = Inr j \<and>
          res (sent self @ [force_query c]) j = (Inr items, qs)"
  then show "force srv res c self =
          (Inr items, \<lparr>extras = AList.update (ckey c) items (extras self),
                       sent = sent self @ force_query c # qs\<rparr>)"
    by (simp add: force_success)
qed

lemma demo_force_movies:
  "force demo_server demo_resolver Movies fresh =
     (Inr (PList [PEntity ''Movie'' [(''Id'', PStr ''m1''), (''Type'', PStr ''Movie'')]]),
      \<lparr>extras = [(''movies'', PList [PEntity ''Movie'' [(''Id'', PStr ''m1''), (''Type'', PStr ''Movie'')]])],
       sent = [force_query Movies]\<rparr>)"
  by (simp add: force_def getJson_def process_def demo_server_def demo_resolver_def fresh_def)

theorem cached_accessor_witness:
  "cached demo_server demo_resolver Movies
      \<lparr>extras = [(''movies'', PList [PInt 7])], sent = []\<rparr>
     = (Inr (PList [PInt 7]), \<lparr>extras = [(''movies'', PList [PInt 7])], sent = []\<rparr>)
   \<and> cached demo_server demo_resolver Movies fresh = force demo_server demo_resolver Movies fresh
   \<and> map_of (extras (snd (force demo_server demo_resolver Movies fresh))) ''movies''
       = Some (PList [PEntity ''Movie'' [(''Id'', PStr ''m1''), (''Type'', PStr ''Movie'')]])"
proof -
  let ?hit = "\<lparr>extras = [(''movies'', PList [PInt 7])], sent = []\<rparr>"
  have 1: "cached demo_server demo_resolver Movies ?hit = (Inr (PList [PInt 7]), ?hit)"
    using cached_accessor [of ?hit Movies demo_server demo_resolver] by simp
  have 2: "cached demo_server demo_resolver Movies fresh = force demo_server demo_resolver Movies fresh"
    using cached_accessor [of fresh Movies demo_server demo_resolver] by (simp add: fresh_def)
  have 3: "map_of (extras (snd (force demo_server demo_resolver Movies fresh))) ''movies''
       = Some (PList [PEntity ''Movie'' [(''Id'', PStr ''m1''), (''Type'', PStr ''Movie'')]])"
    using cached_accessor [of fresh Movies demo_server demo_resolver] demo_force_movies by simp
  from 1 2 3 show ?thesis by simp
qed


text \<open>
  C3, amended. After a forced accessor has fetched and resolved a non-empty
  (truthy) value \<open>s\<close>, the cached accessor of the same key returns \<open>s\<close> and
  leaves the object as it is: no request is sent. After \<open>update\<close> on a cache
  whose keys are collection keys, the cache is empty and the next cached accessor
  performs the forced accessor, whose first request is the query of the
  collection.
\<close>

theorem cache_after_force:
  "(\<forall>s self'. force srv res c self = (Inr s, self') \<and> truthy s \<longrightarrow>
        cached srv res c self' = (Inr s, self'))
   \<and> ((\<forall>k\<in>fst ` set (extras self). k \<in> ckey ` set collections) \<longrightarrow>
        extras (snd (update srv res inherited self)) = [] \<and>
        cached srv res c (snd (update srv res inherited self))
          = force srv res c (snd (update srv res inherited self)) \<and>
        (\<exists>qs. sent (snd (cached srv res c (snd (update srv res inherited self))))
                = sent self @ force_query c # qs))"
proof (intro conjI allI impI)
  fix s self' assume a: "force srv res c self = (Inr s, self') \<and> truthy s"
  then have "map_of (extras self') (ckey c) = Some s"
    by (auto intro: force_stores)
  with a show "cached srv res c self' = (Inr s, self')"
    by (simp add: cached_hit)
next
  assume k: "\<forall>k\<in>fst ` set (extras self). k \<in> ckey ` set collections"
  then have u: "update srv res inherited self = (Inr PNone, self\<lparr>extras := []\<rparr>)"
    by (rule update_clears)
  then show "extras (snd (update srv res inherited self)) = []"
    by simp
  have m: "cached srv res c (self\<lparr>extras := []\<rparr>) = force srv res c (self\<lparr>extras := []\<rparr>)"
    by (rule cached_miss) simp
  with u show "cached srv res c (snd (update srv res inherited self))
          = force srv res c (snd (update srv res inherited self))"
    by simp
  from force_sent [of srv res c "self\<lparr>extras := []\<rparr>"] u m
  show "\<exists>qs. sent (snd (cached srv res c (snd (update srv res inherited self))))
                = sent self @ force_query c # qs"
    by simp
qed

theorem cache_after_force_witness:
  "force demo_server demo_resolver Movies fresh =
     (Inr (PList [PEntity ''Movie'' [(''Id'', PStr ''m1''), (''Type'', PStr ''Movie'')]]),
      \<lparr>extras = [(''movies'', PList [PEntity ''Movie'' [(''Id'', PStr ''m1''), (''Type'', PStr ''Movie'')]])],
       sent = [force_query Movies]\<rparr>)
   \<and> truthy (PList [PEntity ''Movie'' [(''Id'', PStr ''m1''), (''Type'', PStr ''Movie'')]])
   \<and> cached demo_server demo_resolver Movies
        \<lparr>extras = [(''movies'', PList [PEntity ''Movie'' [(''Id'', PStr ''m1''), (''Type'', PStr ''Movie'')]])],
         sent = [force_query Movies]\<rparr>
       = (Inr (PList [PEntity ''Movie'' [(''Id'', PStr ''m1''), (''Type'', PStr ''Movie'')]]),
          \<lparr>extras = [(''movies'', PList [PEntity ''Movie'' [(''Id'', PStr ''m1''), (''Type'', PStr ''Movie'')]])],
           sent = [force_query Movies]\<rparr>)
   \<and> fst ` set (extras \<lparr>extras = [(''movies'', PList [PInt 7])], sent = []\<rparr>)
         \<subseteq> ckey ` set collections
   \<and> (\<exists>qs. sent (snd (cached demo_server demo_resolver Movies
                 (snd (update demo_server demo_resolver (\<lambda>k s. s)
                        \<lparr>extras = [(''movies'', PList [PInt 7])], sent = []\<rparr>))))
             = force_query Movies # qs)"
proof -
  let ?e = "PList [PEntity ''Movie'' [(''Id'', PStr ''m1''), (''Type'', PStr ''Movie'')]]"
  let ?s1 = "\<lparr>extras = [(''movies'', ?e)], sent = [force_query Movies]\<rparr>"
  let ?old = "\<lparr>extras = [(''movies'', PList [PInt 7])], sent = []\<rparr>"
  have f: "force demo_server demo_resolver Movies fresh = (Inr ?e, ?s1)"
    by (simp add: force_def getJson_def process_def demo_server_def demo_resolver_def fresh_def)
  have t: "truthy ?e" by simp
  have k: "\<forall>k\<in>fst ` set (extras ?old). k \<in> ckey ` set collections"
    by (simp add: collections_def)
  note main = cache_after_force [of demo_server demo_resolver Movies]
  have 1: "cached demo_server demo_resolver Movies ?s1 = (Inr ?e, ?s1)"
    using main [of fresh] f t by blast
  have 2: "\<exists>qs. sent (snd (cached demo_server demo_resolver Movies
                 (snd (update demo_server demo_resolver (\<lambda>k s. s) ?old))))
             = force_query Movies # qs"
  proof -
    from main [of ?old "\<lambda>k s. s"] k
    have "\<exists>qs. sent (snd (cached demo_server demo_resolver Movies
                 (snd (update demo_server demo_resolver (\<lambda>k s. s) ?old))))
             = sent ?old @ force_query Movies # qs"
      by blast
    then show ?thesis by simp
  qed
  from k have k': "fst ` set (extras ?old) \<subseteq> ckey ` set collections"
    by blast
  from f t 1 k' 2 show ?thesis by blast
qed

text \<open>
  C3 as stated fails for an empty sequence: the devices query answers with the
  empty list, the forced accessor stores it, and the cached accessor that follows
  finds a falsy entry and sends the query a second time.
\<close>

theorem cache_after_empty_force_counterexample:
  "force demo_server demo_resolver Devices fresh =
     (Inr (PList []), \<lparr>extras = [(''devices'', PList [])], sent = [force_query Devices]\<rparr>)
   \<and> cached demo_server demo_resolver Devices
        \<lparr>extras = [(''devices'', PList [])], sent = [force_query Devices]\<rparr>
       = (Inr (PList []),
          \<lparr>extras = [(''devices'', PList [])], sent = [force_query Devices, force_query Devices]\<rparr>)"
  by (simp add: cached_def dict_get_def force_def getJson_def process_def demo_server_def
      demo_resolver_def fresh_def Let_def)

text \<open>
  C2. With \<open>albums\<close> cached, \<open>update\<close> empties the cache and sends no request,
  whatever the server, the resolver and the inherited attributes are: the entry
  is not fetched again.
\<close>

theorem update_refetches_nothing:
  "update srv res inherited
      \<lparr>extras = [(''albums'', PList [PEntity ''MusicAlbum'' [(''Id'', PStr ''a1'')]])], sent = []\<rparr>
     = (Inr PNone, \<lparr>extras = [], sent = []\<rparr>)"
  by (simp add: update_def refresh_key_def async_func_def emby_properties_def collections_def)

lemma item_query_shape:
  "c \<in> set item_collections \<Longrightarrow>
     \<exists>ty fs.
        force_query c =
          \<lparr>path = ''/Users/{UserId}/Items'',
           kwargs = [(''remote'', PBool False), (''format'', PStr ''json''),
                     (''Recursive'', PStr ''true''), (''IncludeItemTypes'', PStr ty),
                     (''Fields'', PStr fs), (''SortBy'', PStr ''SortName''),
                     (''SortOrder'', PStr ''Ascending'')]\<rparr>
        \<and> (ckey c, ty) \<in> set [(''albums'', ''MusicAlbum''), (''songs'', ''Audio''),
              (''playlists'', ''Playlist''), (''artists'', ''MusicArtist''),
              (''movies'', ''Movie''), (''series'', ''Series''), (''episodes'', ''Episode'')]"
  by (cases c) (simp_all add: item_collections_def)

text \<open>
  C7. For each of the seven item collections, the query of the forced accessor
  is \<open>/Users/{UserId}/Items\<close> with \<open>Recursive=true\<close>, the item type of the
  collection as \<open>IncludeItemTypes\<close>, a \<open>Fields\<close> list, \<open>SortBy=SortName\<close> and
  \<open>SortOrder=Ascending\<close>; the forced accessor always sends this query first;
  and when the query and the resolver succeed, it returns the resolved value and
  has overwritten the cache entry of its key with it, whatever the entry was.
\<close>

theorem force_item_collection:
  "c \<in> set item_collections \<longrightarrow>
     (\<exists>ty fs.
        force_query c =
          \<lparr>path = ''/Users/{UserId}/Items'',
           kwargs = [(''remote'', PBool False), (''format'', PStr ''json''),
                     (''Recursive'', PStr ''true''), (''IncludeItemTypes'', PStr ty),
                     (''Fields'', PStr fs), (''SortBy'', PStr ''SortName''),
                     (''SortOrder'', PStr ''Ascending'')]\<rparr>
        \<and> (ckey c, ty) \<in> set [(''albums'', ''MusicAlbum''), (''songs'', ''Audio''),
              (''playlists'', ''Playlist''), (''artists'', ''MusicArtist''),
              (''movies'', ''Movie''), (''series'', ''Series''), (''episodes'', ''Episode'')])
     \<and> (\<exists>qs. sent (snd (force srv res c self)) = sent self @ force_query c # qs)
     \<and> (\<forall>j items qs. srv (sent self) (force_query c) = Inr j \<and>
            res (sent self @ [force_query c]) j = (Inr items, qs) \<longrightarrow>
            force srv res c self =
              (Inr items, \<lparr>extras = AList.update (ckey c) items (extras self),
                           sent = sent self @ force_query c # qs\<rparr>)
            \<and> map_of (AList.update (ckey c) items (extras self)) (ckey c) = Some items)"
proof (intro impI conjI allI)
  assume "c \<in> set item_collections"
  then show "\<exists>ty fs.
        force_query c =
          \<lparr>path = ''/Users/{UserId}/Items'',
           kwargs = [(''remote'', PBool False), (''format'', PStr ''json''),
                     (''Recursive'', PStr ''true''), (''IncludeItemTypes'', PStr ty),
                     (''Fields'', PStr fs), (''SortBy'', PStr ''SortName''),
                     (''SortOrder'', PStr ''Ascending'')]\<rparr>
        \<and> (ckey c, ty) \<in> set [(''albums'', ''MusicAlbum''), (''songs'', ''Audio''),
              (''playlists'', ''Playlist''), (''artists'', ''MusicArtist''),
              (''movies'', ''Movie''), (''series'', ''Series''), (''episodes'', ''Episode'')]"
    by (rule item_query_shape)
next
  show "\<exists>qs. sent (snd (force srv res c self)) = sent self @ force_query c # qs"
    by (rule force_sent)
next
  fix j items qs
  assume "srv (sent self) (force_query c) = Inr j \<and>
            res (sent self @ [force_query c]) j = (Inr items, qs)"
  then show "force srv res c self =
              (Inr items, \<lparr>extras = AList.update (ckey c) items (extras self),
                           sent = sent self @ force_query c # qs\<rparr>)"
    by (simp add: force_success)
next
  fix j items qs
  show "map_of (AList.update (ckey c) items (extras self)) (ckey c) = Some items"
    by (simp add: update_conv')
qed

theorem force_item_collection_witness:
  "Movies \<in> set item_collections
   \<and> demo_server (sent \<lparr>extras = [(''movies'', PList [PInt 7])], sent = []\<rparr>) (force_query Movies)
       = Inr (PList [PDict [(''Id'', PStr ''m1''), (''Type'', PStr ''Movie'')]])
   \<and> demo_resolver (sent \<lparr>extras = [(''movies'', PList [PInt 7])], sent = []\<rparr> @ [force_query Movies])
         (PList [PDict [(''Id'', PStr ''m1''), (''Type'', PStr ''Movie'')]])
       = (Inr (PList [PEntity ''Movie'' [(''Id'', PStr ''m1''), (''Type'', PStr ''Movie'')]]), [])
   \<and> force demo_server demo_resolver Movies \<lparr>extras = [(''movies'', PList [PInt 7])], sent = []\<rparr>
       = (Inr (PList [PEntity ''Movie'' [(''Id'', PStr ''m1''), (''Type'', PStr ''Movie'')]]),
          \<lparr>extras = [(''movies'', PList [PEntity ''Movie'' [(''Id'', PStr ''m1''), (''Type'', PStr ''Movie'')]])],
           sent = [force_query Movies]\<rparr>)"
proof -
  let ?old = "\<lparr>extras = [(''movies'', PList [PInt 7])], sent = []\<rparr>"
  let ?j = "PList [PDict [(''Id'', PStr ''m1''), (''Type'', PStr ''Movie'')]]"
  let ?e = "PList [PEntity ''Movie'' [(''Id'', PStr ''m1''), (''Type'', PStr ''Movie'')]]"
  have m: "Movies \<in> set item_collections"
    by (simp add: item_collections_def)
  have a: "demo_server (sent ?old) (force_query Movies) = Inr ?j"
    by (simp add: demo_server_def)
  have b: "demo_resolver (sent ?old @ [force_query Movies]) ?j = (Inr ?e, [])"
    by (simp add: demo_resolver_def)
  from force_item_collection [of Movies demo_server demo_resolver ?old] m a b
  have "force demo_server demo_resolver Movies ?old
       = (Inr ?e, \<lparr>extras = AList.update (ckey Movies) ?e (extras ?old),
                   sent = sent ?old @ force_query Movies # []\<rparr>)"
    by blast
  then have "force demo_server demo_resolver Movies ?old
       = (Inr ?e, \<lparr>extras = [(''movies'', ?e)], sent = [force_query Movies]\<rparr>)"
    by simp
  with m a b show ?thesis by blast
qed

section \<open>Properties of search and info\<close>

lemma keys_of_total:
  "\<forall>x\<in>set xs. f x = Inr (g x) \<Longrightarrow> keys_of f xs = Inr (map g xs)"
  by (induction xs) simp_all

lemma map_snd_insort:
  "\<forall>p\<in>set ps. fst p = g (snd p) \<Longrightarrow>
     map snd (insort_key fst (g x, x) ps) = insort_key g x (map snd ps)"
  by (induction ps) simp_all

lemma decorated_sort:
  "map snd (sort_key fst (zip (map g xs) xs)) = sort_key g xs"
proof (induction xs)
  case Nil
  then show ?case by simp
next
  case (Cons x xs)
  have "\<forall>p\<in>set (sort_key fst (zip (map g xs) xs)). fst p = g (snd p)"
    by (auto simp: in_set_zip)
  then show ?case
    using Cons.IH by (simp add: map_snd_insort)
qed

lemma py_sorted_total:
  "\<forall>x\<in>set xs. f x = Inr (g x) \<Longrightarrow> py_sorted f xs = Inr (sort_key g xs)"
  using keys_of_total [of xs f g] by (simp add: py_sorted_def decorated_sort)

lemma sort_priority_rank:
  "is_entity x \<Longrightarrow> sort_priority sort_map x = Inr (rank sort_map x)"
  by (cases x) (simp_all add: rank_def sort_priority_def)

lemma rank_unmapped:
  "is_entity x \<Longrightarrow> \<not> is_mapped sort_map x \<Longrightarrow> rank sort_map x = int (length sort_map)"
proof (cases x)
  case (PEntity t d)
  assume "\<not> is_mapped sort_map x"
  with PEntity have "t \<notin> fst ` set sort_map"
    by (simp add: is_mapped_def)
  then have "map_of sort_map t = None"
    by (simp add: map_of_eq_None_iff)
  with PEntity show ?thesis
    by (simp add: rank_def sort_priority_def dict_get_def)
qed simp_all

lemma rank_mapped:
  assumes "is_mapped sort_map x" "\<forall>p\<in>set sort_map. snd p < int (length sort_map)"
  shows "rank sort_map x < int (length sort_map)"
proof (cases x)
  case (PEntity t d)
  with assms(1) have "t \<in> fst ` set sort_map"
    by (simp add: is_mapped_def)
  then have "map_of sort_map t \<noteq> None"
    by (simp add: map_of_eq_None_iff)
  then obtain v where "map_of sort_map t = Some v"
    by blast
  moreover from this have "(t, v) \<in> set sort_map"
    by (rule map_of_SomeD)
  ultimately show ?thesis
    using assms(2) PEntity by (auto simp: rank_def sort_priority_def dict_get_def)
qed (use assms(1) in \<open>simp_all add: is_mapped_def\<close>)

lemma insort_key_append_low:
  "\<forall>b\<in>set bs. g x \<le> g b \<Longrightarrow> insort_key g x (as @ bs) = insort_key g x as @ bs"
  by (induction as) (simp_all add: insort_is_Cons)

lemma insort_key_append_high:
  "\<forall>a\<in>set as. g a < g x \<Longrightarrow> insort_key g x (as @ bs) = as @ insort_key g x bs"
  by (induction as) auto

lemma sort_key_partition:
  assumes "\<forall>x\<in>set xs. (P x \<longrightarrow> g x < m) \<and> (\<not> P x \<longrightarrow> g x = m)"
  shows "sort_key g xs = sort_key g (filter P xs) @ filter (\<lambda>x. \<not> P x) xs"
  using assms
proof (induction xs)
  case Nil
  then show ?case by simp
next
  case (Cons x xs)
  let ?as = "sort_key g (filter P xs)" and ?bs = "filter (\<lambda>x. \<not> P x) xs"
  from Cons have IH: "sort_key g xs = ?as @ ?bs" by simp
  show ?case
  proof (cases "P x")
    case True
    with Cons.prems have "\<forall>b\<in>set ?bs. g x \<le> g b" by auto
    then have "insort_key g x (?as @ ?bs) = insort_key g x ?as @ ?bs"
      by (rule insort_key_append_low)
    with True IH show ?thesis by simp
  next
    case False
    with Cons.prems have "\<forall>a\<in>set ?as. g a < g x" by auto
    then have "insort_key g x (?as @ ?bs) = ?as @ insort_key g x ?bs"
      by (rule insort_key_append_high)
    moreover from False Cons.prems have "\<forall>b\<in>set ?bs. g x \<le> g b" by auto
    then have "insort_key g x ?bs = x # ?bs"
      by (rule insort_is_Cons)
    ultimately show ?thesis using False IH by simp
  qed
qed

lemma sorted_constant: "\<forall>x\<in>set xs. g x = (m::int) \<Longrightarrow> sorted (map g xs)"
  by (induction xs) simp_all

lemma sort_key_keeps_unmapped:
  assumes "\<forall>x\<in>set xs. \<not> P x \<longrightarrow> g x = (m::int)"
  shows "filter (\<lambda>x. \<not> P x) (sort_key g xs) = filter (\<lambda>x. \<not> P x) xs"
proof -
  have "sorted (map g (filter (\<lambda>x. \<not> P x) xs))"
    using assms by (intro sorted_constant [where m = m]) simp
  then have "sort_key g (filter (\<lambda>x. \<not> P x) xs) = filter (\<lambda>x. \<not> P x) xs"
    by (rule sort_key_id_if_sorted)
  then show ?thesis by (simp add: filter_sort)
qed

lemma search_success:
  assumes "srv (sent self) (search_request query sort_map strict_sort) = Inr json"
    and "subscript json ''SearchHints'' = Inr hints"
    and "fst (res (sent self @ [search_request query sort_map strict_sort]) hints) = Inr (PList xs)"
    and "\<forall>x\<in>set xs. is_entity x"
  shows "fst (search srv res query sort_map strict_sort self)
           = Inr (PList (sort_key (rank sort_map) xs))"
proof -
  from assms(4) have "py_sorted (sort_priority sort_map) xs = Inr (sort_key (rank sort_map) xs)"
    by (intro py_sorted_total) (simp add: sort_priority_rank)
  then have "sort_items sort_map (PList xs) = Inr (PList (sort_key (rank sort_map) xs))"
    by (simp add: sort_items_def)
  with assms(1-3) show ?thesis
    by (auto simp: search_def search_request_def getJson_def process_def split: prod.splits)
qed

text \<open>
  C1, amended. When the search request, the subscript and the resolver succeed
  and the resolver gives a list of entities \<open>xs\<close>, \<open>search\<close> returns a
  permutation of \<open>xs\<close> sorted by the key \<open>sort_map.get(type, len(sort_map))\<close>,
  lower first and stably: entities of equal key, and so the unmapped entities
  among themselves, keep their order. An unmapped entity has the key
  \<open>len(sort_map)\<close>; when every priority in \<open>sort_map\<close> is smaller than
  \<open>len(sort_map)\<close>, the result is the mapped entities followed by the unmapped
  ones in their original order.
\<close>

theorem search_sorts_hits:
  "srv (sent self) (search_request query sort_map strict_sort) = Inr json
   \<and> subscript json ''SearchHints'' = Inr hints
   \<and> fst (res (sent self @ [search_request query sort_map strict_sort]) hints) = Inr (PList xs)
   \<and> list_all is_entity xs
   \<longrightarrow> (\<exists>ys. fst (search srv res query sort_map strict_sort self) = Inr (PList ys)
          \<and> mset ys = mset xs
          \<and> sorted (map (rank sort_map) ys)
          \<and> (\<forall>k. filter (\<lambda>x. rank sort_map x = k) ys = filter (\<lambda>x. rank sort_map x = k) xs)
          \<and> filter (\<lambda>x. \<not> is_mapped sort_map x) ys = filter (\<lambda>x. \<not> is_mapped sort_map x) xs
          \<and> (list_all (\<lambda>p. snd p < int (length sort_map)) sort_map \<longrightarrow>
               ys = filter (is_mapped sort_map) ys @ filter (\<lambda>x. \<not> is_mapped sort_map x) xs))"
proof (intro impI)
  assume a: "srv (sent self) (search_request query sort_map strict_sort) = Inr json
   \<and> subscript json ''SearchHints'' = Inr hints
   \<and> fst (res (sent self @ [search_request query sort_map strict_sort]) hints) = Inr (PList xs)
   \<and> list_all is_entity xs"
  then have ent: "\<forall>x\<in>set xs. is_entity x"
    by (simp add: list_all_iff)
  let ?ys = "sort_key (rank sort_map) xs"
  let ?m = "int (length sort_map)"
  have 1: "fst (search srv res query sort_map strict_sort self) = Inr (PList ?ys)"
    using a ent by (intro search_success) auto
  have 2: "mset ?ys = mset xs" by simp
  have 3: "sorted (map (rank sort_map) ?ys)" by (rule sorted_sort_key)
  have 4: "\<forall>k. filter (\<lambda>x. rank sort_map x = k) ?ys = filter (\<lambda>x. rank sort_map x = k) xs"
    by (simp add: sort_key_stable)
  have 5: "filter (\<lambda>x. \<not> is_mapped sort_map x) ?ys = filter (\<lambda>x. \<not> is_mapped sort_map x) xs"
    using ent by (intro sort_key_keeps_unmapped [where m = ?m]) (simp add: rank_unmapped)
  have 6: "?ys = filter (is_mapped sort_map) ?ys @ filter (\<lambda>x. \<not> is_mapped sort_map x) xs"
    if "list_all (\<lambda>p. snd p < ?m) sort_map"
  proof -
    from that have b: "\<forall>p\<in>set sort_map. snd p < ?m"
      by (simp add: list_all_iff)
    have "\<forall>x\<in>set xs. (is_mapped sort_map x \<longrightarrow> rank sort_map x < ?m)
                   \<and> (\<not> is_mapped sort_map x \<longrightarrow> rank sort_map x = ?m)"
      using ent b by (auto simp: rank_mapped rank_unmapped)
    then have "?ys = sort_key (rank sort_map) (filter (is_mapped sort_map) xs)
                       @ filter (\<lambda>x. \<not> is_mapped sort_map x) xs"
      by (rule sort_key_partition)
    then show ?thesis by (simp add: filter_sort)
  qed
  from 1 2 3 4 5 6 show "\<exists>ys. fst (search srv res query sort_map strict_sort self) = Inr (PList ys)
          \<and> mset ys = mset xs
          \<and> sorted (map (rank sort_map) ys)
          \<and> (\<forall>k. filter (\<lambda>x. rank sort_map x = k) ys = filter (\<lambda>x. rank sort_map x = k) xs)
          \<and> filter (\<lambda>x. \<not> is_mapped sort_map x) ys = filter (\<lambda>x. \<not> is_mapped sort_map x) xs
          \<and> (list_all (\<lambda>p. snd p < int (length sort_map)) sort_map \<longrightarrow>
               ys = filter (is_mapped sort_map) ys @ filter (\<lambda>x. \<not> is_mapped sort_map x) xs)"
    by blast
qed

lemma demo_search:
  "fst (search demo_server demo_resolver ''x'' [(''Movie'', 0), (''Series'', 1)] False fresh)
     = Inr (PList
        [PEntity ''Movie'' [(''Id'', PStr ''B''), (''Type'', PStr ''Movie'')],
         PEntity ''Movie'' [(''Id'', PStr ''C''), (''Type'', PStr ''Movie'')],
         PEntity ''Series'' [(''Id'', PStr ''A''), (''Type'', PStr ''Series'')],
         PEntity ''Person'' [(''Id'', PStr ''D''), (''Type'', PStr ''Person'')]])"
  by (simp add: search_def getJson_def process_def demo_server_def demo_resolver_def fresh_def
      demo_hints_def search_request_def search_params_def sort_items_def py_sorted_def
      sort_priority_def dict_get_def)

text \<open>
  C1 as stated fails when a priority is not below \<open>len(sort_map)\<close>: with
  \<open>sort_map = {Movie: 5}\<close> the unmapped series and person have key 1 and are
  placed before the two mapped movies.
\<close>

theorem search_high_priority_counterexample:
  "fst (search demo_server demo_resolver ''x'' [(''Movie'', 5)] False fresh)
     = Inr (PList
        [PEntity ''Series'' [(''Id'', PStr ''A''), (''Type'', PStr ''Series'')],
         PEntity ''Person'' [(''Id'', PStr ''D''), (''Type'', PStr ''Person'')],
         PEntity ''Movie'' [(''Id'', PStr ''B''), (''Type'', PStr ''Movie'')],
         PEntity ''Movie'' [(''Id'', PStr ''C''), (''Type'', PStr ''Movie'')]])
   \<and> \<not> is_mapped [(''Movie'', 5)] (PEntity ''Series'' [(''Id'', PStr ''A''), (''Type'', PStr ''Series'')])
   \<and> is_mapped [(''Movie'', 5)] (PEntity ''Movie'' [(''Id'', PStr ''B''), (''Type'', PStr ''Movie'')])"
  by (simp add: search_def getJson_def process_def demo_server_def demo_resolver_def fresh_def
      demo_hints_def search_request_def search_params_def sort_items_def py_sorted_def
      sort_priority_def dict_get_def
      is_mapped_def)

theorem search_sorts_hits_witness:
  "demo_server (sent fresh) (search_request ''x'' [(''Movie'', 0), (''Series'', 1)] False)
     = Inr (PDict [(''SearchHints'', PList demo_hints)])
   \<and> subscript (PDict [(''SearchHints'', PList demo_hints)]) ''SearchHints'' = Inr (PList demo_hints)
   \<and> fst (demo_resolver (sent fresh @ [search_request ''x'' [(''Movie'', 0), (''Series'', 1)] False])
            (PList demo_hints)) = Inr (PList demo_entities)
   \<and> list_all is_entity demo_entities
   \<and> list_all (\<lambda>p. snd p < int (length [(''Movie'', 0::int), (''Series'', 1)]))
        [(''Movie'', 0), (''Series'', 1)]
   \<and> (\<exists>ys. fst (search demo_server demo_resolver ''x'' [(''Movie'', 0), (''Series'', 1)] False fresh)
              = Inr (PList ys)
          \<and> mset ys = mset demo_entities
          \<and> sorted (map (rank [(''Movie'', 0), (''Series'', 1)]) ys)
          \<and> ys = filter (is_mapped [(''Movie'', 0), (''Series'', 1)]) ys
                 @ filter (\<lambda>x. \<not> is_mapped [(''Movie'', 0), (''Series'', 1)] x) demo_entities)"
proof -
  let ?sm = "[(''Movie'', 0::int), (''Series'', 1)]"
  have h1: "demo_server (sent fresh) (search_request ''x'' ?sm False)
     = Inr (PDict [(''SearchHints'', PList demo_hints)])"
    by (simp add: demo_server_def search_request_def)
  have h2: "subscript (PDict [(''SearchHints'', PList demo_hints)]) ''SearchHints''
     = Inr (PList demo_hints)"
    by simp
  have h3: "fst (demo_resolver (sent fresh @ [search_request ''x'' ?sm False]) (PList demo_hints))
     = Inr (PList demo_entities)"
    by (simp add: demo_resolver_def demo_hints_def demo_entities_def)
  have h4: "list_all is_entity demo_entities"
    by (simp add: demo_entities_def)
  have h5: "list_all (\<lambda>p. snd p < int (length ?sm)) ?sm"
    by simp
  from search_sorts_hits [of demo_server fresh "''x''" ?sm False
        "PDict [(''SearchHints'', PList demo_hints)]" "PList demo_hints" demo_resolver
        demo_entities] h1 h2 h3 h4 h5
  have "\<exists>ys. fst (search demo_server demo_resolver ''x'' ?sm False fresh) = Inr (PList ys)
          \<and> mset ys = mset demo_entities
          \<and> sorted (map (rank ?sm) ys)
          \<and> ys = filter (is_mapped ?sm) ys @ filter (\<lambda>x. \<not> is_mapped ?sm x) demo_entities"
    by blast
  with h1 h2 h3 h4 h5 show ?thesis by blast
qed

lemma search_sent:
  "\<exists>qs. sent (snd (search srv res query sort_map strict_sort self))
          = sent self @ search_request query sort_map strict_sort # qs"
  by (auto simp: search_def search_request_def getJson_def process_def
           split: prod.splits sum.splits)

text \<open>
  C6. The first request of \<open>search\<close> goes to \<open>/Search/Hints/\<close>. With
  \<open>strict_sort\<close> its arguments are \<open>remote\<close>, \<open>searchTerm\<close> and
  \<open>IncludeItemTypes\<close>, the keys of \<open>sort_map\<close> joined by commas; without it
  there is no \<open>IncludeItemTypes\<close>.
\<close>

theorem search_request_types:
  "(\<exists>qs. sent (snd (search srv res query sort_map strict_sort self))
           = sent self @ search_request query sort_map strict_sort # qs)
   \<and> path (search_request query sort_map strict_sort) = ''/Search/Hints/''
   \<and> (strict_sort \<longrightarrow>
        kwargs (search_request query sort_map strict_sort) =
          [(''remote'', PBool False), (''searchTerm'', PStr query),
           (''IncludeItemTypes'', PStr (join '','' (map fst sort_map)))])
   \<and> (\<not> strict_sort \<longrightarrow>
        kwargs (search_request query sort_map strict_sort) =
          [(''remote'', PBool False), (''searchTerm'', PStr query)])"
  using search_sent [of srv res query sort_map strict_sort self]
  by (simp add: search_request_def search_params_def)

theorem search_request_types_witness:
  "kwargs (search_request ''x'' [(''Movie'', 0)] True) =
     [(''remote'', PBool False), (''searchTerm'', PStr ''x''), (''IncludeItemTypes'', PStr ''Movie'')]
   \<and> kwargs (search_request ''x'' default_sort_map True) =
     [(''remote'', PBool False), (''searchTerm'', PStr ''x''),
      (''IncludeItemTypes'', PStr ''BoxSet,Series,Movie,Audio,Person'')]
   \<and> kwargs (search_request ''x'' [(''Movie'', 0)] False) =
     [(''remote'', PBool False), (''searchTerm'', PStr ''x'')]"
  using search_request_types [of demo_server demo_resolver "''x''" "[(''Movie'', 0)]" True fresh]
    search_request_types [of demo_server demo_resolver "''x''" default_sort_map True fresh]
    search_request_types [of demo_server demo_resolver "''x''" "[(''Movie'', 0)]" False fresh]
  by (simp add: default_sort_map_def)


lemma info_passes_on:
  "truthy obj_id \<Longrightarrow> fst (res (sent self) obj_id) = Inr v \<Longrightarrow>
     fst (info res connector_info obj_id self) = Inr v"
  by (auto simp: info_def process_def split: prod.splits sum.splits exn.splits)







section \<open>Properties of the resolver of the specification\<close>

lemma complete_all:
  assumes "\<forall>i<length slots. \<not> isl (fst (f i))"
  shows "\<exists>slots' ids'. complete f order slots ids = (Inr slots', ids')
           \<and> length slots' = length slots
           \<and> (\<forall>j<length slots. slots' ! j =
                 (if j \<in> set order then Some (projr (fst (f j))) else slots ! j))"
  using assms
proof (induction order arbitrary: slots ids)
  case Nil
  then show ?case by simp
next
  case (Cons i order)
  show ?case
  proof (cases "i < length slots")
    case False
    with Cons.IH [of slots ids] Cons.prems show ?thesis by auto
  next
    case True
    with Cons.prems obtain v js where f: "f i = (Inr v, js)"
      by (cases "f i"; cases "fst (f i)") auto
    let ?slots = "slots[i := Some v]"
    from Cons.prems have "\<forall>i<length ?slots. \<not> isl (fst (f i))" by simp
    from Cons.IH [OF this, of "ids @ js"]
    obtain slots' ids' where c: "complete f order ?slots (ids @ js) = (Inr slots', ids')"
      and l: "length slots' = length ?slots"
      and n: "\<forall>j<length ?slots. slots' ! j =
                 (if j \<in> set order then Some (projr (fst (f j))) else ?slots ! j)"
      by blast
    from True f c have "complete f (i # order) slots ids = (Inr slots', ids')"
      by simp
    moreover from l have "length slots' = length slots" by simp
    moreover have "\<forall>j<length slots. slots' ! j =
                 (if j \<in> set (i # order) then Some (projr (fst (f j))) else slots ! j)"
      using n f True by (auto simp: nth_list_update)
    ultimately show ?thesis by blast
  qed
qed

lemma those_map_Some: "those (map Some es) = Some es"
  by (induction es) simp_all

text \<open>
  C8. For a sequence of \<open>N\<close> identifiers, records and entities each of which
  resolves, and for every order of completion that covers the \<open>N\<close> indices,
  the resolver returns a sequence of exactly \<open>N\<close> entities, the \<open>i\<close>-th being
  the resolution of the \<open>i\<close>-th input.
\<close>

theorem process_preserves_order:
  "set order = {0..<length xs} \<and> list_all (succeeds fetchRaw classify) xs \<longrightarrow>
     (\<exists>es ids. process_spec fetchRaw classify order (Sequence xs) = Some (Inr (Many es), ids)
        \<and> length es = length xs
        \<and> (\<forall>i<length xs. fst (resolve fetchRaw classify (xs ! i)) = Inr (es ! i)))"
proof (intro impI)
  assume a: "set order = {0..<length xs} \<and> list_all (succeeds fetchRaw classify) xs"
  let ?f = "\<lambda>i. resolve fetchRaw classify (xs ! i)"
  let ?n = "length xs"
  from a have ok: "\<forall>i<?n. \<not> isl (fst (?f i))"
    by (auto simp: list_all_length succeeds_def isl_def split: sum.splits)
  note complete_all [where f = ?f and slots = "replicate ?n None" and order = order and ids = "[]"]
  with ok obtain slots ids where c: "complete ?f order (replicate ?n None) [] = (Inr slots, ids)"
    and l: "length slots = ?n"
    and n: "\<forall>j<?n. slots ! j =
              (if j \<in> set order then Some (projr (fst (?f j))) else replicate ?n None ! j)"
    by auto
  let ?es = "map (\<lambda>j. projr (fst (?f j))) [0..<?n]"
  from n a l have "slots = map Some ?es"
    by (intro nth_equalityI) simp_all
  then have t: "those slots = Some ?es"
    by (simp only: those_map_Some)
  from c t have "process_spec fetchRaw classify order (Sequence xs) = Some (Inr (Many ?es), ids)"
    by (simp add: process_spec_def)
  moreover have "length ?es = ?n" by simp
  moreover have "\<forall>i<?n. fst (?f i) = Inr (?es ! i)"
    using ok by simp
  ultimately show "\<exists>es ids. process_spec fetchRaw classify order (Sequence xs) = Some (Inr (Many es), ids)
        \<and> length es = length xs
        \<and> (\<forall>i<length xs. fst (resolve fetchRaw classify (xs ! i)) = Inr (es ! i))"
    by blast
qed

lemma demo_process:
  "process_spec demo_fetch demo_classify [2, 0, 1]
     (Sequence [Ident ''B'', Record [(''Id'', PStr ''A''), (''Type'', PStr ''Series'')],
                Resolved (PEntity ''Person'' [(''Id'', PStr ''D'')])])
   = Some (Inr (Many [PEntity ''Movie'' [(''Id'', PStr ''B''), (''Type'', PStr ''Movie'')],
                      PEntity ''Series'' [(''Id'', PStr ''A''), (''Type'', PStr ''Series'')],
                      PEntity ''Person'' [(''Id'', PStr ''D'')]]), [''B''])"
  by (simp add: process_spec_def demo_fetch_def demo_classify_def)

theorem process_preserves_order_witness:
  "set [2, 0, 1] = {0..<length [Ident ''B'', Record [(''Id'', PStr ''A''), (''Type'', PStr ''Series'')],
                Resolved (PEntity ''Person'' [(''Id'', PStr ''D'')])]}
   \<and> list_all (succeeds demo_fetch demo_classify)
        [Ident ''B'', Record [(''Id'', PStr ''A''), (''Type'', PStr ''Series'')],
         Resolved (PEntity ''Person'' [(''Id'', PStr ''D'')])]
   \<and> (\<exists>es ids. process_spec demo_fetch demo_classify [2, 0, 1]
          (Sequence [Ident ''B'', Record [(''Id'', PStr ''A''), (''Type'', PStr ''Series'')],
                Resolved (PEntity ''Person'' [(''Id'', PStr ''D'')])]) = Some (Inr (Many es), ids)
        \<and> length es = 3)"
proof -
  let ?xs = "[Ident ''B'', Record [(''Id'', PStr ''A''), (''Type'', PStr ''Series'')],
              Resolved (PEntity ''Person'' [(''Id'', PStr ''D'')])]"
  have a: "set [2, 0, 1] = {0..<length ?xs}"
    by (auto simp: atLeastLessThan_def lessThan_def atLeast_def)
  have b: "list_all (succeeds demo_fetch demo_classify) ?xs"
    by (simp add: succeeds_def demo_fetch_def)
  from process_preserves_order [of "[2, 0, 1]" ?xs demo_fetch demo_classify] a b
  have "\<exists>es ids. process_spec demo_fetch demo_classify [2, 0, 1] (Sequence ?xs)
                   = Some (Inr (Many es), ids) \<and> length es = length ?xs"
    by blast
  then have "\<exists>es ids. process_spec demo_fetch demo_classify [2, 0, 1] (Sequence ?xs)
                   = Some (Inr (Many es), ids) \<and> length es = 3"
    by (simp add: numeral_3_eq_3)
  with a b show ?thesis by blast
qed

text \<open>
  C9. Given an entity, the resolver returns that entity and fetches nothing.
\<close>

theorem process_entity_unchanged:
  "process_spec fetchRaw classify order (Single (Resolved e)) = Some (Inr (One e), [])
   \<and> resolve fetchRaw classify (Resolved e) = (Inr e, [])"
  by (simp add: process_spec_def)

theorem process_entity_unchanged_witness:
  "process_spec demo_fetch demo_classify [] (Single (Resolved (PEntity ''Person'' [(''Id'', PStr ''D'')])))
     = Some (Inr (One (PEntity ''Person'' [(''Id'', PStr ''D'')])), [])"
  using process_entity_unchanged [of demo_fetch demo_classify "[]" "PEntity ''Person'' [(''Id'', PStr ''D'')]"]
  by simp

end
